theory Spec2Isabelle
  imports Complex_Main "HOL-Library.Product_Lexorder"
begin

section \<open>Pose error functions of utils/pose_error.py\<close>

text \<open>
  The source computes with NumPy arrays of IEEE doubles.  The embedding reads a finite
  double as the real number it denotes (arithmetic is exact, rounding is not modelled) and
  keeps the three special values apart, because several functions produce or filter them.
\<close>

datatype npfloat = Fin real | PInf | NInf | NaN

datatype error = AssertionError | IndexError | ValueError | LinAlgError | AxisError

subsection \<open>compute_auc_posecnn\<close>

text \<open>The order \<open>np.sort\<close> uses: minus infinity, the finite values, infinity, and NaN last.\<close>

fun sort_rank :: "npfloat \<Rightarrow> nat \<times> real" where
  "sort_rank NInf = (0, 0)"
| "sort_rank (Fin x) = (1, x)"
| "sort_rank PInf = (2, 0)"
| "sort_rank NaN = (3, 0)"

definition np_sort :: "npfloat list \<Rightarrow> npfloat list" where
  "np_sort xs = sort_key sort_rank xs"

text \<open>The comparison \<open>d > c\<close> against a finite constant: false on NaN.\<close>

fun np_gt :: "npfloat \<Rightarrow> real \<Rightarrow> bool" where
  "np_gt (Fin x) c = (c < x)"
| "np_gt PInf c = True"
| "np_gt NInf c = False"
| "np_gt NaN c = False"

fun isfinite :: "npfloat \<Rightarrow> bool" where
  "isfinite (Fin x) = True"
| "isfinite PInf = False"
| "isfinite NInf = False"
| "isfinite NaN = False"

text \<open>\<open>d[d > 0.1] = np.inf\<close>\<close>

definition clamp_cutoff :: "npfloat \<Rightarrow> npfloat" where
  "clamp_cutoff x = (if np_gt x (1 / 10) then PInf else x)"

text \<open>\<open>np.cumsum\<close> over a list of reals.\<close>

fun cumsum_from :: "real \<Rightarrow> real list \<Rightarrow> real list" where
  "cumsum_from acc [] = []"
| "cumsum_from acc (x # xs) = (acc + x) # cumsum_from (acc + x) xs"

definition cumsum :: "real list \<Rightarrow> real list" where
  "cumsum xs = cumsum_from 0 xs"

text \<open>Selection by a boolean mask, \<open>a[ids]\<close>.\<close>

definition mask_select :: "bool list \<Rightarrow> 'a list \<Rightarrow> 'a list" where
  "mask_select ids xs = map snd (filter fst (zip ids xs))"

text \<open>The value of an entry that passed the \<open>isfinite\<close> mask.\<close>

fun fin_val :: "npfloat \<Rightarrow> real" where
  "fin_val (Fin x) = x"

text \<open>
  The loop \<open>for i in np.arange(1, len(mpre)): mpre[i] = max(mpre[i], mpre[i - 1])\<close>,
  updating the array in place from left to right.
\<close>

definition running_max :: "real list \<Rightarrow> real list" where
  "running_max mpre =
     fold (\<lambda>i m. m[i := max (m ! i) (m ! (i - 1))]) [1..<length mpre] mpre"

text \<open>\<open>np.where(mrec[1:] != mrec[:-1])[0] + 1\<close>\<close>

definition change_points :: "real list \<Rightarrow> nat list" where
  "change_points mrec = filter (\<lambda>i. mrec ! i \<noteq> mrec ! (i - 1)) [1..<length mrec]"

definition compute_auc_posecnn :: "npfloat list \<Rightarrow> npfloat" where
  "compute_auc_posecnn errors =
     (let d = map clamp_cutoff (np_sort errors);
          accuracy = map (\<lambda>c. c / real (length d)) (cumsum (replicate (length d) 1));
          ids = map isfinite d;
          d' = mask_select ids d;
          accuracy' = mask_select ids accuracy
      in if length ids = 0 \<or> length (filter id ids) = 0 then NaN
         else
           let rec = map fin_val d';
               prec = accuracy';
               mrec = [0] @ rec @ [1 / 10];
               mpre = running_max ([0] @ prec @ [last prec]);
               ids' = change_points mrec
           in Fin (sum_list (map (\<lambda>i. (mrec ! i - mrec ! (i - 1)) * mpre ! i) ids') * 10))"

subsection \<open>NumPy arrays\<close>

text \<open>
  An array is its shape and its entries in row-major (C) order.  A well-formed array has
  as many entries as the product of its shape.
\<close>

record 'a ndarray =
  shape :: "nat list"
  data :: "'a list"

definition nd_size :: "'a ndarray \<Rightarrow> nat" where
  "nd_size a = prod_list (shape a)"

definition wf_array :: "'a ndarray \<Rightarrow> bool" where
  "wf_array a = (length (data a) = prod_list (shape a))"

text \<open>Flat offset of a multi-index, and the multi-index of a flat offset.\<close>

fun ravel :: "nat list \<Rightarrow> nat list \<Rightarrow> nat" where
  "ravel (s # ss) (i # is) = i * prod_list ss + ravel ss is"
| "ravel _ _ = 0"

fun unravel :: "nat list \<Rightarrow> nat \<Rightarrow> nat list" where
  "unravel [] k = []"
| "unravel (s # ss) k = (k div prod_list ss) # unravel ss (k mod prod_list ss)"

fun valid_index :: "nat list \<Rightarrow> nat list \<Rightarrow> bool" where
  "valid_index [] [] = True"
| "valid_index (s # ss) (i # is) = (i < s \<and> valid_index ss is)"
| "valid_index _ _ = False"

definition nd_get :: "'a ndarray \<Rightarrow> nat list \<Rightarrow> 'a" where
  "nd_get a idx = data a ! ravel (shape a) idx"

definition nd_tabulate :: "nat list \<Rightarrow> (nat list \<Rightarrow> 'a) \<Rightarrow> 'a ndarray" where
  "nd_tabulate s f = \<lparr>shape = s, data = map (\<lambda>k. f (unravel s k)) [0..<prod_list s]\<rparr>"

definition nd_map :: "('a \<Rightarrow> 'b) \<Rightarrow> 'a ndarray \<Rightarrow> 'b ndarray" where
  "nd_map f a = \<lparr>shape = shape a, data = map f (data a)\<rparr>"

text \<open>
  Broadcasting of two shapes, aligned at their last axes: two extents agree when they are
  equal or one of them is 1; a missing leading axis counts as 1.
\<close>

fun bc_rev :: "nat list \<Rightarrow> nat list \<Rightarrow> nat list option" where
  "bc_rev [] ys = Some ys"
| "bc_rev xs [] = Some xs"
| "bc_rev (x # xs) (y # ys) =
     (if x = y \<or> y = 1 then map_option ((#) x) (bc_rev xs ys)
      else if x = 1 then map_option ((#) y) (bc_rev xs ys)
      else None)"

definition broadcast_shapes :: "nat list \<Rightarrow> nat list \<Rightarrow> nat list option" where
  "broadcast_shapes s1 s2 = map_option rev (bc_rev (rev s1) (rev s2))"

text \<open>The index an operand of shape s is read at, for an index of the broadcast result.\<close>

definition bc_index :: "nat list \<Rightarrow> nat list \<Rightarrow> nat list" where
  "bc_index s idx =
     map2 (\<lambda>d i. if d = 1 then 0 else i) s (drop (length idx - length s) idx)"

definition nd_binop :: "('a \<Rightarrow> 'b \<Rightarrow> 'c) \<Rightarrow> 'a ndarray \<Rightarrow> 'b ndarray \<Rightarrow> error + 'c ndarray" where
  "nd_binop f a b =
     (case broadcast_shapes (shape a) (shape b) of
        None \<Rightarrow> Inl ValueError
      | Some s \<Rightarrow>
          Inr (nd_tabulate s (\<lambda>idx. f (nd_get a (bc_index (shape a) idx))
                                       (nd_get b (bc_index (shape b) idx)))))"

text \<open>\<open>a.T\<close>: the axes reversed.\<close>

definition nd_T :: "'a ndarray \<Rightarrow> 'a ndarray" where
  "nd_T a = nd_tabulate (rev (shape a)) (\<lambda>idx. nd_get a (rev idx))"

text \<open>\<open>a.reshape(s)\<close> and \<open>a.reshape((-1,) + rest)\<close>; the entries keep their order.\<close>

definition reshape :: "'a ndarray \<Rightarrow> nat list \<Rightarrow> error + 'a ndarray" where
  "reshape a s =
     (if prod_list s \<noteq> nd_size a then Inl ValueError else Inr \<lparr>shape = s, data = data a\<rparr>)"

definition reshape_infer :: "'a ndarray \<Rightarrow> nat list \<Rightarrow> error + 'a ndarray" where
  "reshape_infer a rest =
     (let p = prod_list rest
      in if p = 0 \<or> nd_size a mod p \<noteq> 0 then Inl ValueError
         else Inr \<lparr>shape = (nd_size a div p) # rest, data = data a\<rparr>)"

text \<open>
  \<open>a @ b\<close>.  For operands with at least two axes the last two axes are multiplied as
  matrices and the leading axes broadcast.  A one-axis operand is promoted to a row
  (left) or a column (right) and the added axis is removed from the result; an operand
  without axes is refused.
\<close>

definition matmul_core :: "real ndarray \<Rightarrow> real ndarray \<Rightarrow> error + real ndarray" where
  "matmul_core a b =
     (let sa = shape a; sb = shape b;
          ba = butlast (butlast sa); bb = butlast (butlast sb);
          n = sa ! (length sa - 2); k = last sa;
          k' = sb ! (length sb - 2); m = last sb
      in if k \<noteq> k' then Inl ValueError
         else case broadcast_shapes ba bb of
                None \<Rightarrow> Inl ValueError
              | Some bs \<Rightarrow>
                  Inr (nd_tabulate (bs @ [n, m]) (\<lambda>idx.
                    let bi = take (length bs) idx;
                        i = idx ! length bs;
                        j = idx ! (length bs + 1)
                    in (\<Sum>l\<leftarrow>[0..<k]. nd_get a (bc_index ba bi @ [i, l])
                                      * nd_get b (bc_index bb bi @ [l, j])))))"

definition matmul :: "real ndarray \<Rightarrow> real ndarray \<Rightarrow> error + real ndarray" where
  "matmul a b =
     (let ra = length (shape a); rb = length (shape b)
      in if ra = 0 \<or> rb = 0 then Inl ValueError
         else
           let a' = (if ra = 1 then \<lparr>shape = 1 # shape a, data = data a\<rparr> else a);
               b' = (if rb = 1 then \<lparr>shape = shape b @ [1], data = data b\<rparr> else b)
           in case matmul_core a' b' of
                Inl e \<Rightarrow> Inl e
              | Inr c \<Rightarrow>
                  let s = shape c;
                      s1 = (if rb = 1 then butlast s else s);
                      s2 = (if ra = 1 then butlast (butlast s1) @ [last s1] else s1)
                  in Inr \<lparr>shape = (if ra = 1 \<and> rb = 1 then butlast (butlast s) else s2),
                          data = data c\<rparr>)"

text \<open>\<open>a.sum(1)\<close> and \<open>a.mean(1)\<close>; the mean over an empty axis is NaN.\<close>

definition sum_axis1 :: "real ndarray \<Rightarrow> error + real ndarray" where
  "sum_axis1 a =
     (case shape a of
        s0 # s1 # rest \<Rightarrow>
          Inr (nd_tabulate (s0 # rest)
                 (\<lambda>idx. \<Sum>j\<leftarrow>[0..<s1]. nd_get a (hd idx # j # tl idx)))
      | _ \<Rightarrow> Inl AxisError)"

definition np_mean :: "real list \<Rightarrow> npfloat" where
  "np_mean xs = (if xs = [] then NaN else Fin (sum_list xs / real (length xs)))"

definition mean_axis1 :: "real ndarray \<Rightarrow> error + npfloat ndarray" where
  "mean_axis1 a =
     (case shape a of
        s0 # s1 # rest \<Rightarrow>
          Inr (nd_tabulate (s0 # rest)
                 (\<lambda>idx. np_mean (map (\<lambda>j. nd_get a (hd idx # j # tl idx)) [0..<s1])))
      | _ \<Rightarrow> Inl AxisError)"

text \<open>\<open>np.arccos\<close> is NaN outside [-1, 1]; \<open>np.degrees\<close> keeps the special values.\<close>

definition np_arccos :: "real \<Rightarrow> npfloat" where
  "np_arccos x = (if - 1 \<le> x \<and> x \<le> 1 then Fin (arccos x) else NaN)"

fun np_degrees :: "npfloat \<Rightarrow> npfloat" where
  "np_degrees (Fin x) = Fin (x * 180 / pi)"
| "np_degrees PInf = PInf"
| "np_degrees NInf = NInf"
| "np_degrees NaN = NaN"

subsection \<open>te and quat_re\<close>

definition te :: "real ndarray \<Rightarrow> real ndarray \<Rightarrow> error + npfloat" where
  "te t_est t_gt =
     (if \<not> (nd_size t_est = nd_size t_gt \<and> nd_size t_gt = 3) then Inl AssertionError
      else case nd_binop (\<lambda>g e. g - e) t_gt t_est of
             Inl e \<Rightarrow> Inl e
           | Inr diff \<Rightarrow> Inr (np_mean (data (nd_map abs diff))))"


definition quat_re :: "real ndarray \<Rightarrow> real ndarray \<Rightarrow> error + npfloat ndarray" where
  "quat_re q1 q2 =
     (case nd_binop (\<lambda>x y. x * y) q1 q2 of
        Inl e \<Rightarrow> Inl e
      | Inr inn_prod \<Rightarrow>
          (case sum_axis1 inn_prod of
             Inl e \<Rightarrow> Inl e
           | Inr s \<Rightarrow> Inr (nd_map np_degrees (nd_map np_arccos s))))"

subsection \<open>transform_pts_Rt_batch, transform_pts_Rt, add and adi\<close>

text \<open>
  \<open>pts.shape[1]\<close> raises IndexError on an array with fewer than two axes.  The operands
  of \<open>R @ pts.T + t.reshape(...)\<close> are evaluated from left to right.  The batched variant
  returns the sum as it is (coordinates before points); the single variant transposes it.
\<close>

definition transform_pts_Rt_batch ::
  "real ndarray \<Rightarrow> real ndarray \<Rightarrow> real ndarray \<Rightarrow> error + real ndarray" where
  "transform_pts_Rt_batch pts R t =
     (if length (shape pts) < 2 then Inl IndexError
      else if shape pts ! 1 \<noteq> 3 then Inl AssertionError
      else case matmul R (nd_T pts) of
             Inl e \<Rightarrow> Inl e
           | Inr rp \<Rightarrow>
               (case reshape_infer t [3, 1] of
                  Inl e \<Rightarrow> Inl e
                | Inr tr \<Rightarrow> nd_binop (\<lambda>x y. x + y) rp tr))"

definition transform_pts_Rt ::
  "real ndarray \<Rightarrow> real ndarray \<Rightarrow> real ndarray \<Rightarrow> error + real ndarray" where
  "transform_pts_Rt pts R t =
     (if length (shape pts) < 2 then Inl IndexError
      else if shape pts ! 1 \<noteq> 3 then Inl AssertionError
      else case matmul R (nd_T pts) of
             Inl e \<Rightarrow> Inl e
           | Inr rp \<Rightarrow>
               (case reshape t [3, 1] of
                  Inl e \<Rightarrow> Inl e
                | Inr tr \<Rightarrow>
                    (case nd_binop (\<lambda>x y. x + y) rp tr of
                       Inl e \<Rightarrow> Inl e
                     | Inr pts_t \<Rightarrow> Inr (nd_T pts_t))))"

text \<open>
  add: \<open>R_est.shape[-1]\<close> and \<open>R_est.shape[-2]\<close> raise IndexError when the axis is
  missing; only R_est is asserted.
\<close>

definition add ::
  "real ndarray \<Rightarrow> real ndarray \<Rightarrow> real ndarray \<Rightarrow> real ndarray \<Rightarrow> real ndarray
   \<Rightarrow> error + npfloat ndarray" where
  "add R_est t_est R_gt t_gt pts =
     (let s = shape R_est
      in if length s < 1 then Inl IndexError
         else if last s \<noteq> 3 then Inl AssertionError
         else if length s < 2 then Inl IndexError
         else if s ! (length s - 2) \<noteq> 3 then Inl AssertionError
         else case transform_pts_Rt_batch pts R_est t_est of
                Inl e \<Rightarrow> Inl e
              | Inr pts_est \<Rightarrow>
                  (case transform_pts_Rt_batch pts R_gt t_gt of
                     Inl e \<Rightarrow> Inl e
                   | Inr pts_gt \<Rightarrow>
                       (case nd_binop (\<lambda>x y. x - y) pts_est pts_gt of
                          Inl e \<Rightarrow> Inl e
                        | Inr diff \<Rightarrow>
                            (case sum_axis1 (nd_map (\<lambda>x. x ^ 2) diff) of
                               Inl e \<Rightarrow> Inl e
                             | Inr sq \<Rightarrow> mean_axis1 (nd_map sqrt sq)))))"

text \<open>
  adi.  \<open>spatial.cKDTree(pts_est).query(pts_gt, k=1)\<close> returns, for each row of pts_gt,
  the Euclidean distance to the nearest row of pts_est (SciPy's exact nearest-neighbour
  query); the tree itself is not modelled.  A query is only made when there is a point.
\<close>

definition rows :: "'a ndarray \<Rightarrow> 'a list list" where
  "rows a = map (\<lambda>i. map (\<lambda>j. nd_get a [i, j]) [0..<shape a ! 1]) [0..<shape a ! 0]"

definition euclid :: "real list \<Rightarrow> real list \<Rightarrow> real" where
  "euclid p q = sqrt (\<Sum>(x, y)\<leftarrow>zip p q. (x - y) ^ 2)"

fun nn_query :: "real list list \<Rightarrow> real list \<Rightarrow> real" where
  "nn_query (p # ps) q = fold (\<lambda>r d. min d (euclid q r)) ps (euclid q p)"

definition adi ::
  "real ndarray \<Rightarrow> real ndarray \<Rightarrow> real ndarray \<Rightarrow> real ndarray \<Rightarrow> real ndarray
   \<Rightarrow> error + npfloat" where
  "adi R_est t_est R_gt t_gt pts =
     (case transform_pts_Rt pts R_est t_est of
        Inl e \<Rightarrow> Inl e
      | Inr pts_est \<Rightarrow>
          (case transform_pts_Rt pts R_gt t_gt of
             Inl e \<Rightarrow> Inl e
           | Inr pts_gt \<Rightarrow>
               Inr (np_mean (map (nn_query (rows pts_est)) (rows pts_gt)))))"

text \<open>
  Coordinate c of \<open>R * pts[m] + t\<close>, for the 3 by 3 matrix stored row-major in R from
  offset ro and the translation stored in t from offset to.
\<close>

definition pose_coord ::
  "real ndarray \<Rightarrow> real list \<Rightarrow> nat \<Rightarrow> real list \<Rightarrow> nat \<Rightarrow> nat \<Rightarrow> nat \<Rightarrow> real" where
  "pose_coord pts R ro t to c m =
     (\<Sum>l\<leftarrow>[0..<3]. R ! (ro + 3 * c + l) * nd_get pts [m, l]) + t ! (to + c)"

subsection \<open>re\<close>

text \<open>
  \<open>np.linalg.inv\<close> on the stack of 3 by 3 matrices that \<open>reshape(-1, 3, 3)\<close> produces:
  each matrix (9 entries, row-major) is replaced by its inverse, and the call raises
  LinAlgError when one of them is singular.  In exact arithmetic the inverse is the
  adjugate divided by the determinant.
\<close>

definition det3 :: "real list \<Rightarrow> real" where
  "det3 m =
     m ! 0 * (m ! 4 * m ! 8 - m ! 5 * m ! 7) - m ! 1 * (m ! 3 * m ! 8 - m ! 5 * m ! 6)
     + m ! 2 * (m ! 3 * m ! 7 - m ! 4 * m ! 6)"

definition inv3 :: "real list \<Rightarrow> real list" where
  "inv3 m =
     map (\<lambda>x. x / det3 m)
       [m ! 4 * m ! 8 - m ! 5 * m ! 7, m ! 2 * m ! 7 - m ! 1 * m ! 8, m ! 1 * m ! 5 - m ! 2 * m ! 4,
        m ! 5 * m ! 6 - m ! 3 * m ! 8, m ! 0 * m ! 8 - m ! 2 * m ! 6, m ! 2 * m ! 3 - m ! 0 * m ! 5,
        m ! 3 * m ! 7 - m ! 4 * m ! 6, m ! 1 * m ! 6 - m ! 0 * m ! 7, m ! 0 * m ! 4 - m ! 1 * m ! 3]"

definition matrices :: "real ndarray \<Rightarrow> real list list" where
  "matrices a = map (\<lambda>n. take 9 (drop (9 * n) (data a))) [0..<shape a ! 0]"

definition linalg_inv :: "real ndarray \<Rightarrow> error + real ndarray" where
  "linalg_inv a =
     (if length (shape a) \<noteq> 3 \<or> shape a ! 1 \<noteq> 3 \<or> shape a ! 2 \<noteq> 3 then Inl LinAlgError
      else if list_ex (\<lambda>m. det3 m = 0) (matrices a) then Inl LinAlgError
      else Inr \<lparr>shape = shape a, data = concat (map inv3 (matrices a))\<rparr>)"

text \<open>\<open>np.trace(x, axis1=1, axis2=2)\<close> of a three-axis array.\<close>

definition trace_12 :: "real ndarray \<Rightarrow> error + real ndarray" where
  "trace_12 a =
     (case shape a of
        [n, r, c] \<Rightarrow> Inr (nd_tabulate [n] (\<lambda>idx. \<Sum>i\<leftarrow>[0..<min r c]. nd_get a [idx ! 0, i, i]))
      | _ \<Rightarrow> Inl ValueError)"

definition np_clip :: "real \<Rightarrow> real \<Rightarrow> real \<Rightarrow> real" where
  "np_clip x a_min a_max = min (max x a_min) a_max"

text \<open>The value of \<open>error_cos\<close> before the clip (the assertion and lines 120 to 123).\<close>

definition re_error_cos :: "real ndarray \<Rightarrow> real ndarray \<Rightarrow> error + real ndarray" where
  "re_error_cos R_est R_gt =
     (if drop (length (shape R_est) - 2) (shape R_est) \<noteq> [3, 3] then Inl AssertionError
      else case reshape_infer R_est [3, 3] of
             Inl e \<Rightarrow> Inl e
           | Inr est \<Rightarrow>
               (case reshape_infer R_gt [3, 3] of
                  Inl e \<Rightarrow> Inl e
                | Inr gt \<Rightarrow>
                    (case linalg_inv gt of
                       Inl e \<Rightarrow> Inl e
                     | Inr gt_inv \<Rightarrow>
                         (case matmul est gt_inv of
                            Inl e \<Rightarrow> Inl e
                          | Inr mm \<Rightarrow>
                              (case trace_12 mm of
                                 Inl e \<Rightarrow> Inl e
                               | Inr tr \<Rightarrow> Inr (nd_map (\<lambda>x. (x - 1) * (1 / 2)) tr))))))"

definition re :: "real ndarray \<Rightarrow> real ndarray \<Rightarrow> error + npfloat ndarray" where
  "re R_est R_gt =
     (case re_error_cos R_est R_gt of
        Inl e \<Rightarrow> Inl e
      | Inr error_cos \<Rightarrow>
          Inr (nd_map np_degrees (nd_map np_arccos (nd_map (\<lambda>x. np_clip x (- 1) 1) error_cos))))"

text \<open>
  A well-formed 3 by 3 array whose rows are exactly orthonormal and whose determinant is
  exactly 1 (the identity, for instance); used to evaluate re at concrete inputs.
\<close>

definition is_rotation :: "real ndarray \<Rightarrow> bool" where
  "is_rotation R =
     (shape R = [3, 3] \<and> length (data R) = 9
      \<and> list_all (\<lambda>i. list_all (\<lambda>j.
           (\<Sum>k\<leftarrow>[0..<3]. nd_get R [i, k] * nd_get R [j, k]) = (if i = j then 1 else 0))
           [0..<3]) [0..<3]
      \<and> det3 (data R) = 1)"

section \<open>Properties\<close>

subsection \<open>Facts about the sort and the mask\<close>

lemma set_np_sort: "set (np_sort xs) = set xs"
  by (simp add: np_sort_def)

lemma filter_id_map_isfinite:
  "length (filter id (map isfinite xs)) = length (filter isfinite xs)"
  by (induction xs) auto

lemma auc_nan_iff_no_finite:
  "compute_auc_posecnn errors = NaN \<longleftrightarrow> (\<forall>e \<in> set errors. \<not> isfinite (clamp_cutoff e))"
proof -
  let ?d = "map clamp_cutoff (np_sort errors)"
  have "length (filter id (map isfinite ?d)) = 0 \<longleftrightarrow> (\<forall>e \<in> set errors. \<not> isfinite (clamp_cutoff e))"
    by (simp add: filter_id_map_isfinite filter_empty_conv set_np_sort)
  moreover have "length (map isfinite ?d) = 0 \<Longrightarrow> (\<forall>e \<in> set errors. \<not> isfinite (clamp_cutoff e))"
    by (simp add: np_sort_def)
  ultimately show ?thesis
    unfolding compute_auc_posecnn_def Let_def by auto
qed

subsection \<open>The score is undefined when nothing is within the cutoff\<close>

text \<open>
  C1 (as amended).  When every error exceeds the cutoff 0.1, every entry is clamped to
  infinity, the finite mask is empty and compute_auc_posecnn returns NaN (not 0.0).
\<close>

theorem auc_all_above_cutoff_nan:
  assumes "\<forall>e \<in> set errors. np_gt e (1 / 10)"
  shows "compute_auc_posecnn errors = NaN"
proof -
  have "\<not> isfinite (clamp_cutoff e)" if "e \<in> set errors" for e
    using assms that by (simp add: clamp_cutoff_def)
  then show ?thesis
    by (simp add: auc_nan_iff_no_finite)
qed

theorem auc_all_above_cutoff_nan_witness:
  "list_all (\<lambda>e. np_gt e (1 / 10)) [Fin (1 / 2), PInf, Fin (1 / 5)]
   \<and> compute_auc_posecnn [Fin (1 / 2), PInf, Fin (1 / 5)] = NaN"
  using auc_all_above_cutoff_nan [of "[Fin (1 / 2), PInf, Fin (1 / 5)]"] by simp

text \<open>
  C1 (as stated) fails: on the one-element array [0.2], whose only error is non-negative
  and above the cutoff, the result is NaN and not the score 0.0.
\<close>

theorem auc_all_above_cutoff_counterexample:
  "compute_auc_posecnn [Fin (1 / 5)] = NaN \<and> compute_auc_posecnn [Fin (1 / 5)] \<noteq> Fin 0"
  by (simp add: compute_auc_posecnn_def np_sort_def clamp_cutoff_def)

text \<open>
  C4.  compute_auc_posecnn returns NaN whenever the input array is empty or no entry is
  finite after the entries above the cutoff 0.1 have been set to infinity.
\<close>

theorem auc_undefined:
  assumes "errors = [] \<or> (\<forall>e \<in> set errors. \<not> isfinite (clamp_cutoff e))"
  shows "compute_auc_posecnn errors = NaN"
  using assms by (auto simp: auc_nan_iff_no_finite)

theorem auc_undefined_witness:
  "compute_auc_posecnn [] = NaN
   \<and> list_all (\<lambda>e. \<not> isfinite (clamp_cutoff e)) [Fin (3 / 10), NaN, NInf, PInf]
   \<and> compute_auc_posecnn [Fin (3 / 10), NaN, NInf, PInf] = NaN"
  using auc_undefined [of "[]"] auc_undefined [of "[Fin (3 / 10), NaN, NInf, PInf]"]
  by (simp add: clamp_cutoff_def)

subsection \<open>Indexing, tabulation and broadcasting\<close>

lemma valid_index_unravel: "k < prod_list s \<Longrightarrow> valid_index s (unravel s k)"
proof (induction s arbitrary: k)
  case Nil
  then show ?case by simp
next
  case (Cons a s)
  from Cons.prems have pos: "0 < prod_list s"
    by (cases "prod_list s = 0") auto
  from Cons.prems have "k div prod_list s < a"
    by (simp add: less_mult_imp_div_less)
  moreover have "valid_index s (unravel s (k mod prod_list s))"
    using pos by (intro Cons.IH) simp
  ultimately show ?case by simp
qed


lemma ravel_less: "valid_index s idx \<Longrightarrow> ravel s idx < prod_list s"
proof (induction s idx rule: valid_index.induct)
  case (2 s ss i "is")
  then have r: "ravel ss is < prod_list ss" and i: "Suc i \<le> s" by auto
  have "i * prod_list ss + ravel ss is < Suc i * prod_list ss"
    using r by simp
  also have "\<dots> \<le> s * prod_list ss"
    using i by (rule mult_le_mono1)
  finally show ?case by simp
qed simp_all

lemma unravel_ravel: "valid_index s idx \<Longrightarrow> unravel s (ravel s idx) = idx"
proof (induction s idx rule: valid_index.induct)
  case (2 s ss i "is")
  then have r: "ravel ss is < prod_list ss" by (simp add: ravel_less)
  with 2 show ?case by simp
qed simp_all

lemma valid_index_length: "valid_index s idx \<Longrightarrow> length idx = length s"
  by (induction s idx rule: valid_index.induct) simp_all

lemma nd_get_tabulate: "valid_index s idx \<Longrightarrow> nd_get (nd_tabulate s f) idx = f idx"
  by (simp add: nd_get_def nd_tabulate_def ravel_less unravel_ravel)

lemma bc_rev_same: "bc_rev s s = Some s"
  by (induction s) simp_all

lemma broadcast_shapes_same: "broadcast_shapes s s = Some s"
  by (simp add: broadcast_shapes_def bc_rev_same)

lemma bc_index_same: "valid_index s idx \<Longrightarrow> bc_index s idx = idx"
  by (induction s idx rule: valid_index.induct) (auto simp: bc_index_def valid_index_length)


subsection \<open>te\<close>




subsection \<open>Shapes and entries of tabulated arrays\<close>

lemma shape_tabulate: "shape (nd_tabulate s f) = s"
  by (simp add: nd_tabulate_def)

lemma data_tabulate: "data (nd_tabulate s f) = map (\<lambda>k. f (unravel s k)) [0..<prod_list s]"
  by (simp add: nd_tabulate_def)

lemma wf_tabulate: "wf_array (nd_tabulate s f)"
  by (simp add: nd_tabulate_def wf_array_def)

lemma nd_binop_same_shape_get:
  assumes "shape a = shape b"
  shows "nd_binop f a b = Inr (nd_tabulate (shape b) (\<lambda>idx. f (nd_get a idx) (nd_get b idx)))"
  using assms
  by (simp add: nd_binop_def broadcast_shapes_same nd_tabulate_def bc_index_same valid_index_unravel)

lemma upt4: "[0..<4] = [0, 1, 2, 3]"
  by (simp add: upt_rec)

subsection \<open>quat_re\<close>

text \<open>
  C10.  quat_re validates nothing and clips nothing: for any two arrays of shape N by 4
  (unit quaternions or not) it returns, without an error, the array of N entries whose
  n-th entry is degrees(arccos(dot)) when the dot product of the n-th rows lies in
  [-1, 1], and NaN when it lies outside.
\<close>

theorem quat_re_rows:
  assumes "shape q1 = [N, 4]" "shape q2 = [N, 4]"
  shows "quat_re q1 q2 =
         Inr \<lparr>shape = [N],
              data = map (\<lambda>n. let dot = (\<Sum>j\<leftarrow>[0..<4]. nd_get q1 [n, j] * nd_get q2 [n, j])
                               in if - 1 \<le> dot \<and> dot \<le> 1 then Fin (arccos dot * 180 / pi) else NaN)
                         [0..<N]\<rparr>"
proof -
  let ?prod = "nd_tabulate [N, 4] (\<lambda>idx. nd_get q1 idx * nd_get q2 idx)"
  let ?sum = "nd_tabulate [N] (\<lambda>idx. \<Sum>j\<leftarrow>[0..<4]. nd_get ?prod (hd idx # j # tl idx))"
  have b: "nd_binop (\<lambda>x y. x * y) q1 q2 = Inr ?prod"
    using assms by (simp add: nd_binop_same_shape_get)
  have s: "sum_axis1 ?prod = Inr ?sum"
    by (simp add: sum_axis1_def shape_tabulate)
  have q: "quat_re q1 q2 = Inr (nd_map np_degrees (nd_map np_arccos ?sum))"
    by (simp add: quat_re_def b s)
  have row: "(\<Sum>j\<leftarrow>[0..<4]. nd_get ?prod [n, j])
             = (\<Sum>j\<leftarrow>[0..<4]. nd_get q1 [n, j] * nd_get q2 [n, j])" if "n < N" for n
    using that by (simp add: nd_get_tabulate upt4)
  have "data ?sum = map (\<lambda>n. \<Sum>j\<leftarrow>[0..<4]. nd_get q1 [n, j] * nd_get q2 [n, j]) [0..<N]"
    using row by (simp add: data_tabulate cong: map_cong)
  then show ?thesis
    unfolding q by (simp add: nd_map_def shape_tabulate np_arccos_def Let_def)
qed

theorem quat_re_rows_witness:
  "quat_re \<lparr>shape = [2, 4], data = [1, 0, 0, 0, 1, 1, 0, 0]\<rparr>
           \<lparr>shape = [2, 4], data = [1, 0, 0, 0, 1, 1, 0, 0]\<rparr>
   = Inr \<lparr>shape = [2], data = [Fin 0, NaN]\<rparr>"
  using quat_re_rows [of "\<lparr>shape = [2, 4], data = [1, 0, 0, 0, 1, 1, 0, 0]\<rparr>" 2
                         "\<lparr>shape = [2, 4], data = [1, 0, 0, 0, 1, 1, 0, 0]\<rparr>"]
  by (simp add: nd_get_def upt_rec)

subsection \<open>Matrix products and the point transformer\<close>

lemma nd_tabulate_cong:
  assumes "\<And>idx. valid_index s idx \<Longrightarrow> f idx = g idx"
  shows "nd_tabulate s f = nd_tabulate s g"
  using assms by (simp add: nd_tabulate_def valid_index_unravel)

lemma valid_index3: "valid_index [a, b, c] idx \<longleftrightarrow> (\<exists>i j k. idx = [i, j, k] \<and> i < a \<and> j < b \<and> k < c)"
  by (auto elim!: valid_index.elims)

lemma valid_index2: "valid_index [a, b] idx \<longleftrightarrow> (\<exists>i j. idx = [i, j] \<and> i < a \<and> j < b)"
  by (auto elim!: valid_index.elims)

lemma nd_T_2d:
  assumes "shape a = [m, n]"
  shows "nd_T a = nd_tabulate [n, m] (\<lambda>idx. nd_get a [idx ! 1, idx ! 0])"
  unfolding nd_T_def using assms
  by (auto intro!: nd_tabulate_cong simp: valid_index2)

lemma matmul_3d_2d:
  assumes "shape a = [N, r, k]" "shape b = [k, M]"
  shows "matmul a b = Inr (nd_tabulate [N, r, M]
           (\<lambda>idx. \<Sum>l\<leftarrow>[0..<k]. nd_get a [idx ! 0, idx ! 1, l] * nd_get b [l, idx ! 2]))"
proof -
  have "matmul_core a b = Inr (nd_tabulate [N, r, M]
           (\<lambda>idx. \<Sum>l\<leftarrow>[0..<k]. nd_get a [idx ! 0, idx ! 1, l] * nd_get b [l, idx ! 2]))"
    using assms
    by (auto simp: matmul_core_def broadcast_shapes_def bc_index_def valid_index3 Let_def
        intro!: nd_tabulate_cong)
  then show ?thesis
    using assms by (simp add: matmul_def shape_tabulate data_tabulate nd_tabulate_def)
qed

lemma matmul_2d_2d:
  assumes "shape a = [r, k]" "shape b = [k, M]"
  shows "matmul a b = Inr (nd_tabulate [r, M]
           (\<lambda>idx. \<Sum>l\<leftarrow>[0..<k]. nd_get a [idx ! 0, l] * nd_get b [l, idx ! 1]))"
proof -
  have "matmul_core a b = Inr (nd_tabulate [r, M]
           (\<lambda>idx. \<Sum>l\<leftarrow>[0..<k]. nd_get a [idx ! 0, l] * nd_get b [l, idx ! 1]))"
    using assms
    by (auto simp: matmul_core_def broadcast_shapes_def bc_index_def valid_index2 Let_def
        intro!: nd_tabulate_cong)
  then show ?thesis
    using assms by (simp add: matmul_def shape_tabulate data_tabulate nd_tabulate_def)
qed


lemma nd_binop_bc:
  assumes "broadcast_shapes (shape a) (shape b) = Some s"
  shows "nd_binop f a b =
         Inr (nd_tabulate s (\<lambda>idx. f (nd_get a (bc_index (shape a) idx))
                                      (nd_get b (bc_index (shape b) idx))))"
  using assms by (simp add: nd_binop_def)

lemma upt3: "[0..<3] = [0, 1, 2]"
  by (simp add: upt_rec)

lemma transform_batch_3d:
  assumes "shape pts = [M, 3]" "shape R = [N, 3, 3]" "nd_size t = 3 * N"
  shows "transform_pts_Rt_batch pts R t =
         Inr (nd_tabulate [N, 3, M]
               (\<lambda>idx. pose_coord pts (data R) (9 * (idx ! 0)) (data t) (3 * (idx ! 0))
                         (idx ! 1) (idx ! 2)))"
    (is "_ = Inr (nd_tabulate _ ?res)")
proof -
  let ?rp = "nd_tabulate [N, 3, M]
           (\<lambda>idx. \<Sum>l\<leftarrow>[0..<3]. nd_get R [idx ! 0, idx ! 1, l] * nd_get (nd_T pts) [l, idx ! 2])"
  let ?tr = "\<lparr>shape = [N, 3, 1], data = data t\<rparr>"
  have T: "nd_T pts = nd_tabulate [3, M] (\<lambda>idx. nd_get pts [idx ! 1, idx ! 0])"
    using assms(1) by (rule nd_T_2d)
  have mm: "matmul R (nd_T pts) = Inr ?rp"
    by (rule matmul_3d_2d) (simp_all add: assms T shape_tabulate)
  have rs: "reshape_infer t [3, 1] = Inr ?tr"
    using assms(3) by (simp add: reshape_infer_def)
  have bc: "broadcast_shapes [N, 3, M] [N, 3, 1] = Some [N, 3, M]"
    by (simp add: broadcast_shapes_def)
  have step1: "nd_binop (\<lambda>x y. x + y) ?rp ?tr =
        Inr (nd_tabulate [N, 3, M]
              (\<lambda>idx. nd_get ?rp (bc_index [N, 3, M] idx) + nd_get ?tr (bc_index [N, 3, 1] idx)))"
    using nd_binop_bc [of ?rp ?tr "[N, 3, M]"] bc by (simp add: shape_tabulate)
  have step2: "nd_tabulate [N, 3, M]
              (\<lambda>idx. nd_get ?rp (bc_index [N, 3, M] idx) + nd_get ?tr (bc_index [N, 3, 1] idx))
        = nd_tabulate [N, 3, M] ?res"
  proof (rule nd_tabulate_cong)
    fix idx
    assume v: "valid_index [N, 3, M] idx"
    then obtain n c m where idx: "idx = [n, c, m]" and b: "n < N" "c < 3" "m < M"
      by (auto simp: valid_index3)
    have g1: "nd_get ?rp (bc_index [N, 3, M] idx)
              = (\<Sum>l\<leftarrow>[0..<3]. nd_get R [n, c, l] * nd_get pts [m, l])"
      using v b by (simp add: bc_index_same nd_get_tabulate idx upt3 T valid_index2)
    have g2: "nd_get ?tr (bc_index [N, 3, 1] idx) = data t ! (3 * n + c)"
      using b by (auto simp: bc_index_def idx nd_get_def mult.commute)
    show "nd_get ?rp (bc_index [N, 3, M] idx) + nd_get ?tr (bc_index [N, 3, 1] idx)
          = ?res idx"
      unfolding g1 g2 by (simp add: pose_coord_def idx upt3 nd_get_def assms(2) algebra_simps)
  qed
  show ?thesis
    unfolding transform_pts_Rt_batch_def mm rs using assms(1) step1 step2 by simp
qed

lemma transform_batch_2d:
  assumes "shape pts = [M, 3]" "shape R = [3, 3]" "nd_size t = 3"
  shows "transform_pts_Rt_batch pts R t =
         Inr (nd_tabulate [1, 3, M]
               (\<lambda>idx. pose_coord pts (data R) 0 (data t) 0 (idx ! 1) (idx ! 2)))"
    (is "_ = Inr (nd_tabulate _ ?res)")
proof -
  let ?rp = "nd_tabulate [3, M]
           (\<lambda>idx. \<Sum>l\<leftarrow>[0..<3]. nd_get R [idx ! 0, l] * nd_get (nd_T pts) [l, idx ! 1])"
  let ?tr = "\<lparr>shape = [1, 3, 1], data = data t\<rparr>"
  have T: "nd_T pts = nd_tabulate [3, M] (\<lambda>idx. nd_get pts [idx ! 1, idx ! 0])"
    using assms(1) by (rule nd_T_2d)
  have mm: "matmul R (nd_T pts) = Inr ?rp"
    by (rule matmul_2d_2d) (simp_all add: assms T shape_tabulate)
  have rs: "reshape_infer t [3, 1] = Inr ?tr"
    using assms(3) by (simp add: reshape_infer_def)
  have bc: "broadcast_shapes [3, M] [1, 3, 1] = Some [1, 3, M]"
    by (simp add: broadcast_shapes_def)
  have step1: "nd_binop (\<lambda>x y. x + y) ?rp ?tr =
        Inr (nd_tabulate [1, 3, M]
              (\<lambda>idx. nd_get ?rp (bc_index [3, M] idx) + nd_get ?tr (bc_index [1, 3, 1] idx)))"
    using nd_binop_bc [of ?rp ?tr "[1, 3, M]"] bc by (simp add: shape_tabulate)
  have step2: "nd_tabulate [1, 3, M]
              (\<lambda>idx. nd_get ?rp (bc_index [3, M] idx) + nd_get ?tr (bc_index [1, 3, 1] idx))
        = nd_tabulate [1, 3, M] ?res"
  proof (rule nd_tabulate_cong)
    fix idx
    assume v: "valid_index [1, 3, M] idx"
    then obtain c m where idx: "idx = [0, c, m]" and b: "c < 3" "m < M"
      by (auto simp: valid_index3)
    have bi: "bc_index [3, M] idx = [c, m]"
      using b by (auto simp: bc_index_def idx)
    have g1: "nd_get ?rp (bc_index [3, M] idx)
              = (\<Sum>l\<leftarrow>[0..<3]. nd_get R [c, l] * nd_get pts [m, l])"
      unfolding bi using b by (simp add: nd_get_tabulate valid_index2 upt3 T)
    have g2: "nd_get ?tr (bc_index [1, 3, 1] idx) = data t ! c"
      using b by (auto simp: bc_index_def idx nd_get_def)
    show "nd_get ?rp (bc_index [3, M] idx) + nd_get ?tr (bc_index [1, 3, 1] idx)
          = ?res idx"
      unfolding g1 g2 by (simp add: pose_coord_def idx upt3 nd_get_def assms(2) algebra_simps)
  qed
  show ?thesis
    unfolding transform_pts_Rt_batch_def mm rs using assms(1) step1 step2 by simp
qed

lemma transform_single:
  assumes "shape pts = [M, 3]" "shape R = [3, 3]" "nd_size t = 3"
  shows "transform_pts_Rt pts R t =
         Inr (nd_tabulate [M, 3]
               (\<lambda>idx. pose_coord pts (data R) 0 (data t) 0 (idx ! 1) (idx ! 0)))"
    (is "_ = Inr (nd_tabulate _ ?res)")
proof -
  let ?rp = "nd_tabulate [3, M]
           (\<lambda>idx. \<Sum>l\<leftarrow>[0..<3]. nd_get R [idx ! 0, l] * nd_get (nd_T pts) [l, idx ! 1])"
  let ?tr = "\<lparr>shape = [3, 1], data = data t\<rparr>"
  let ?sum = "nd_tabulate [3, M] (\<lambda>idx. pose_coord pts (data R) 0 (data t) 0 (idx ! 0) (idx ! 1))"
  have T: "nd_T pts = nd_tabulate [3, M] (\<lambda>idx. nd_get pts [idx ! 1, idx ! 0])"
    using assms(1) by (rule nd_T_2d)
  have mm: "matmul R (nd_T pts) = Inr ?rp"
    by (rule matmul_2d_2d) (simp_all add: assms T shape_tabulate)
  have rs: "reshape t [3, 1] = Inr ?tr"
    using assms(3) by (simp add: reshape_def)
  have bc: "broadcast_shapes [3, M] [3, 1] = Some [3, M]"
    by (simp add: broadcast_shapes_def)
  have step1: "nd_binop (\<lambda>x y. x + y) ?rp ?tr =
        Inr (nd_tabulate [3, M]
              (\<lambda>idx. nd_get ?rp (bc_index [3, M] idx) + nd_get ?tr (bc_index [3, 1] idx)))"
    using nd_binop_bc [of ?rp ?tr "[3, M]"] bc by (simp add: shape_tabulate)
  have step2: "nd_tabulate [3, M]
              (\<lambda>idx. nd_get ?rp (bc_index [3, M] idx) + nd_get ?tr (bc_index [3, 1] idx))
        = ?sum"
  proof (rule nd_tabulate_cong)
    fix idx
    assume v: "valid_index [3, M] idx"
    then obtain c m where idx: "idx = [c, m]" and b: "c < 3" "m < M"
      by (auto simp: valid_index2)
    have g1: "nd_get ?rp (bc_index [3, M] idx)
              = (\<Sum>l\<leftarrow>[0..<3]. nd_get R [c, l] * nd_get pts [m, l])"
      using v b by (simp add: bc_index_same nd_get_tabulate idx valid_index2 upt3 T)
    have g2: "nd_get ?tr (bc_index [3, 1] idx) = data t ! c"
      using b by (auto simp: bc_index_def idx nd_get_def)
    show "nd_get ?rp (bc_index [3, M] idx) + nd_get ?tr (bc_index [3, 1] idx)
          = pose_coord pts (data R) 0 (data t) 0 (idx ! 0) (idx ! 1)"
      unfolding g1 g2 by (simp add: pose_coord_def idx upt3 nd_get_def assms(2) algebra_simps)
  qed
  have tt: "nd_T ?sum = nd_tabulate [M, 3] ?res"
    unfolding nd_T_2d [of ?sum 3 M, OF shape_tabulate]
    by (rule nd_tabulate_cong) (auto simp: valid_index2 nd_get_tabulate)
  show ?thesis
    unfolding transform_pts_Rt_def mm rs using assms(1) step1 step2 tt by simp
qed

subsection \<open>transform_pts_Rt_batch\<close>

text \<open>
  What the batched body computes for a point set of shape M by 3, N rotations (N by 3 by 3)
  and N translations (N by 3): an array of shape N by 3 by M, coordinates before points,
  whose entry at pose n, coordinate c and point m is coordinate c of R_n * pts[m] + t_n.
  The sum is returned without the transpose that transform_pts_Rt applies.
\<close>

lemma transform_batch_entries:
  assumes "wf_array pts" "wf_array R" "wf_array t"
    and "shape pts = [M, 3]" "shape R = [N, 3, 3]" "shape t = [N, 3]"
  shows "\<exists>out. transform_pts_Rt_batch pts R t = Inr out \<and> wf_array out \<and> shape out = [N, 3, M]
           \<and> (\<forall>n<N. \<forall>c<3. \<forall>m<M.
                 nd_get out [n, c, m]
                 = (\<Sum>l\<leftarrow>[0..<3]. nd_get R [n, c, l] * nd_get pts [m, l]) + nd_get t [n, c])"
proof -
  let ?out = "nd_tabulate [N, 3, M]
               (\<lambda>idx. pose_coord pts (data R) (9 * (idx ! 0)) (data t) (3 * (idx ! 0))
                         (idx ! 1) (idx ! 2))"
  have "transform_pts_Rt_batch pts R t = Inr ?out"
    using assms(4-6) by (intro transform_batch_3d) (simp_all add: nd_size_def)
  moreover have "nd_get ?out [n, c, m]
                 = (\<Sum>l\<leftarrow>[0..<3]. nd_get R [n, c, l] * nd_get pts [m, l]) + nd_get t [n, c]"
    if "n < N" "c < 3" "m < M" for n c m
  proof -
    have "nd_get ?out [n, c, m] = pose_coord pts (data R) (9 * n) (data t) (3 * n) c m"
      using that by (simp add: nd_get_tabulate)
    then show ?thesis
      by (simp add: pose_coord_def upt3 nd_get_def assms(5,6) algebra_simps)
  qed
  ultimately show ?thesis
    by (intro exI[of _ ?out]) (simp add: wf_tabulate shape_tabulate)
qed

text \<open>
  C2.  The batched transform is to return shape N by M by 3, with the entry at pose n and
  point m the transformed point R_n * pts[m] + t_n (its docstring too says the result is
  n by 3).  The code does not: for one pose and the two points (1, 2, 3) and (4, 5, 6) it
  returns shape 1 by 3 by 2 with entries 8, 5, 21, 24, 33, 36, where the transformed points
  (8, 21, 33) and (5, 24, 36) were to be the two rows of a 1 by 2 by 3 array.  The
  single-pose transform_pts_Rt, which ends with the transpose, returns these two rows.
\<close>

theorem transform_batch_layout_failing_input:
  "transform_pts_Rt_batch \<lparr>shape = [2, 3], data = [1, 2, 3, 4, 5, 6]\<rparr>
      \<lparr>shape = [1, 3, 3], data = [0, - 1, 0, 1, 0, 0, 0, 0, 1]\<rparr>
      \<lparr>shape = [1, 3], data = [10, 20, 30]\<rparr>
   = Inr \<lparr>shape = [1, 3, 2], data = [8, 5, 21, 24, 33, 36]\<rparr>
   \<and> [1, 3, 2] \<noteq> [1, 2, 3 :: nat]
   \<and> transform_pts_Rt \<lparr>shape = [2, 3], data = [1, 2, 3, 4, 5, 6]\<rparr>
        \<lparr>shape = [3, 3], data = [0, - 1, 0, 1, 0, 0, 0, 0, 1]\<rparr>
        \<lparr>shape = [3], data = [10, 20, 30]\<rparr>
     = Inr \<lparr>shape = [2, 3], data = [8, 21, 33, 5, 24, 36]\<rparr>"
proof -
  let ?pts = "\<lparr>shape = [2, 3], data = [1, 2, 3, 4, 5, 6 :: real]\<rparr>"
  have batch: "transform_pts_Rt_batch ?pts
      \<lparr>shape = [1, 3, 3], data = [0, - 1, 0, 1, 0, 0, 0, 0, 1]\<rparr>
      \<lparr>shape = [1, 3], data = [10, 20, 30]\<rparr>
    = Inr \<lparr>shape = [1, 3, 2], data = [8, 5, 21, 24, 33, 36]\<rparr>"
    by (simp add: transform_pts_Rt_batch_def nd_T_def matmul_def matmul_core_def
        reshape_infer_def nd_size_def nd_binop_def broadcast_shapes_def nd_tabulate_def
        nd_get_def bc_index_def Let_def upt_rec)
  have "transform_pts_Rt ?pts
      \<lparr>shape = [3, 3], data = [0, - 1, 0, 1, 0, 0, 0, 0, 1]\<rparr>
      \<lparr>shape = [3], data = [10, 20, 30]\<rparr>
    = Inr (nd_tabulate [2, 3]
            (\<lambda>idx. pose_coord ?pts [0, - 1, 0, 1, 0, 0, 0, 0, 1] 0 [10, 20, 30] 0
                     (idx ! 1) (idx ! 0)))"
    using transform_single [of ?pts 2
        "\<lparr>shape = [3, 3], data = [0, - 1, 0, 1, 0, 0, 0, 0, 1]\<rparr>"
        "\<lparr>shape = [3], data = [10, 20, 30]\<rparr>"]
    by (simp add: nd_size_def)
  then have single: "transform_pts_Rt ?pts
      \<lparr>shape = [3, 3], data = [0, - 1, 0, 1, 0, 0, 0, 0, 1]\<rparr>
      \<lparr>shape = [3], data = [10, 20, 30]\<rparr>
    = Inr \<lparr>shape = [2, 3], data = [8, 21, 33, 5, 24, 36]\<rparr>"
    by (simp add: nd_tabulate_def pose_coord_def nd_get_def upt_rec)
  show ?thesis
    using batch single by simp
qed

subsection \<open>The shape assertion of add\<close>

lemma drop_last_two:
  assumes "2 \<le> length s"
  shows "drop (length s - 2) s = [s ! (length s - 2), last s]"
proof -
  from assms obtain xs x y where s: "s = xs @ [x, y]"
  proof (induction s rule: rev_induct)
    case Nil
    then show ?case by simp
  next
    case (snoc y ys)
    from snoc.prems(2) have "ys \<noteq> []" by auto
    then obtain zs x where "ys = zs @ [x]"
      by (metis rev_exhaust)
    then show ?case using snoc.prems(1) [of zs x y] by simp
  qed
  show ?thesis by (simp add: s nth_append)
qed

text \<open>
  C9 (as amended).  add asserts the shape of the estimated rotation array only: whenever
  R_est has at least two axes and its last two extents are not 3 by 3, add fails with an
  assertion error before anything is computed, whatever the other arguments are.  The
  ground-truth rotation array is not asserted.
\<close>

theorem add_asserts_R_est:
  assumes "2 \<le> length (shape R_est)"
    and "drop (length (shape R_est) - 2) (shape R_est) \<noteq> [3, 3]"
  shows "add R_est t_est R_gt t_gt pts = Inl AssertionError"
  using assms by (auto simp: add_def Let_def drop_last_two)

theorem add_asserts_R_est_witness:
  "add \<lparr>shape = [2, 2], data = [1, 0, 0, 1]\<rparr> \<lparr>shape = [3], data = [0, 0, 0]\<rparr>
       \<lparr>shape = [3, 3], data = [1, 0, 0, 0, 1, 0, 0, 0, 1]\<rparr> \<lparr>shape = [3], data = [0, 0, 0]\<rparr>
       \<lparr>shape = [1, 3], data = [1, 0, 0]\<rparr> = Inl AssertionError"
  using add_asserts_R_est [of "\<lparr>shape = [2, 2], data = [1, 0, 0, 1]\<rparr>"] by simp


text \<open>
  C9 (as stated) fails for the ground-truth array: with a valid R_est and an R_gt of shape
  1 by 3, no assertion fails; the product broadcasts and add returns the number 2.
\<close>

theorem add_R_gt_unchecked_counterexample:
  "add \<lparr>shape = [3, 3], data = [1, 0, 0, 0, 1, 0, 0, 0, 1]\<rparr> \<lparr>shape = [3], data = [0, 0, 0]\<rparr>
       \<lparr>shape = [1, 3], data = [1, 0, 0]\<rparr> \<lparr>shape = [3], data = [0, 1, - 1]\<rparr>
       \<lparr>shape = [1, 3], data = [1, 0, 0]\<rparr>
   = Inr \<lparr>shape = [1], data = [Fin 2]\<rparr>"
proof -
  let ?pts = "\<lparr>shape = [1, 3], data = [1, 0, 0 :: real]\<rparr>"
  let ?Re = "\<lparr>shape = [3, 3], data = [1, 0, 0, 0, 1, 0, 0, 0, 1 :: real]\<rparr>"
  let ?te = "\<lparr>shape = [3], data = [0, 0, 0 :: real]\<rparr>"
  let ?Rg = "\<lparr>shape = [1, 3], data = [1, 0, 0 :: real]\<rparr>"
  let ?tg = "\<lparr>shape = [3], data = [0, 1, - 1 :: real]\<rparr>"
  have T: "nd_T ?pts = \<lparr>shape = [3, 1], data = [1, 0, 0]\<rparr>"
    by (simp add: nd_T_def nd_tabulate_def nd_get_def upt_rec)
  have me: "matmul ?Re \<lparr>shape = [3, 1], data = [1, 0, 0]\<rparr> = Inr \<lparr>shape = [3, 1], data = [1, 0, 0]\<rparr>"
    by (simp add: matmul_def matmul_core_def broadcast_shapes_def nd_tabulate_def nd_get_def
        bc_index_def Let_def upt_rec)
  have mg: "matmul ?Rg \<lparr>shape = [3, 1], data = [1, 0, 0]\<rparr> = Inr \<lparr>shape = [1, 1], data = [1]\<rparr>"
    by (simp add: matmul_def matmul_core_def broadcast_shapes_def nd_tabulate_def nd_get_def
        bc_index_def Let_def upt_rec)
  have re: "reshape_infer ?te [3, 1] = Inr \<lparr>shape = [1, 3, 1], data = [0, 0, 0]\<rparr>"
    and rg: "reshape_infer ?tg [3, 1] = Inr \<lparr>shape = [1, 3, 1], data = [0, 1, - 1]\<rparr>"
    by (simp_all add: reshape_infer_def nd_size_def)
  have ae: "nd_binop (\<lambda>x y. x + y) \<lparr>shape = [3, 1], data = [1, 0, 0 :: real]\<rparr>
              \<lparr>shape = [1, 3, 1], data = [0, 0, 0]\<rparr> = Inr \<lparr>shape = [1, 3, 1], data = [1, 0, 0]\<rparr>"
    by (simp add: nd_binop_def broadcast_shapes_def nd_tabulate_def nd_get_def bc_index_def upt_rec)
  have ag: "nd_binop (\<lambda>x y. x + y) \<lparr>shape = [1, 1], data = [1 :: real]\<rparr>
              \<lparr>shape = [1, 3, 1], data = [0, 1, - 1]\<rparr> = Inr \<lparr>shape = [1, 3, 1], data = [1, 2, 0]\<rparr>"
    by (simp add: nd_binop_def broadcast_shapes_def nd_tabulate_def nd_get_def bc_index_def upt_rec)
  have pe: "transform_pts_Rt_batch ?pts ?Re ?te = Inr \<lparr>shape = [1, 3, 1], data = [1, 0, 0]\<rparr>"
    unfolding transform_pts_Rt_batch_def T me re using ae by simp
  have pg: "transform_pts_Rt_batch ?pts ?Rg ?tg = Inr \<lparr>shape = [1, 3, 1], data = [1, 2, 0]\<rparr>"
    unfolding transform_pts_Rt_batch_def T mg rg using ag by simp
  have df: "nd_binop (\<lambda>x y. x - y) \<lparr>shape = [1, 3, 1], data = [1, 0, 0 :: real]\<rparr>
              \<lparr>shape = [1, 3, 1], data = [1, 2, 0]\<rparr> = Inr \<lparr>shape = [1, 3, 1], data = [0, - 2, 0]\<rparr>"
    by (simp add: nd_binop_def broadcast_shapes_def nd_tabulate_def nd_get_def bc_index_def upt_rec)
  have sq: "sum_axis1 (nd_map (\<lambda>x. x ^ 2) \<lparr>shape = [1, 3, 1], data = [0, - 2, 0 :: real]\<rparr>)
            = Inr \<lparr>shape = [1, 1], data = [4]\<rparr>"
    by (simp add: sum_axis1_def nd_map_def nd_tabulate_def nd_get_def upt_rec)
  have mn: "mean_axis1 (nd_map sqrt \<lparr>shape = [1, 1], data = [4]\<rparr>) = Inr \<lparr>shape = [1], data = [Fin 2]\<rparr>"
    by (simp add: mean_axis1_def nd_map_def nd_tabulate_def nd_get_def np_mean_def upt_rec)
  show ?thesis
    unfolding add_def pe pg using df sq mn by (simp add: Let_def)
qed

subsection \<open>adi against add\<close>

lemma nd_map_tabulate: "nd_map g (nd_tabulate s f) = nd_tabulate s (\<lambda>idx. g (f idx))"
  by (simp add: nd_map_def nd_tabulate_def)

lemma nd_binop_tabulate:
  "nd_binop f (nd_tabulate s a) (nd_tabulate s b) = Inr (nd_tabulate s (\<lambda>idx. f (a idx) (b idx)))"
proof -
  have "nd_binop f (nd_tabulate s a) (nd_tabulate s b)
        = Inr (nd_tabulate s (\<lambda>idx. f (nd_get (nd_tabulate s a) idx) (nd_get (nd_tabulate s b) idx)))"
    using nd_binop_same_shape_get [of "nd_tabulate s a" "nd_tabulate s b" f]
    by (simp add: shape_tabulate)
  also have "nd_tabulate s (\<lambda>idx. f (nd_get (nd_tabulate s a) idx) (nd_get (nd_tabulate s b) idx))
        = nd_tabulate s (\<lambda>idx. f (a idx) (b idx))"
    by (rule nd_tabulate_cong) (simp add: nd_get_tabulate)
  finally show ?thesis .
qed

lemma sum_axis1_tabulate3:
  "sum_axis1 (nd_tabulate [a, b, c] f)
   = Inr (nd_tabulate [a, c] (\<lambda>idx. \<Sum>j\<leftarrow>[0..<b]. f [idx ! 0, j, idx ! 1]))"
proof -
  have "nd_tabulate [a, c] (\<lambda>idx. \<Sum>j\<leftarrow>[0..<b]. nd_get (nd_tabulate [a, b, c] f) (hd idx # j # tl idx))
        = nd_tabulate [a, c] (\<lambda>idx. \<Sum>j\<leftarrow>[0..<b]. f [idx ! 0, j, idx ! 1])"
  proof (rule nd_tabulate_cong)
    fix idx
    assume "valid_index [a, c] idx"
    then obtain i k where idx: "idx = [i, k]" and b: "i < a" "k < c"
      by (auto simp: valid_index2)
    have "(\<Sum>j\<leftarrow>[0..<b]. nd_get (nd_tabulate [a, b, c] f) [i, j, k])
          = (\<Sum>j\<leftarrow>[0..<b]. f [i, j, k])"
      using b by (intro arg_cong[where f = sum_list] map_cong) (simp_all add: nd_get_tabulate)
    then show "(\<Sum>j\<leftarrow>[0..<b]. nd_get (nd_tabulate [a, b, c] f) (hd idx # j # tl idx))
               = (\<Sum>j\<leftarrow>[0..<b]. f [idx ! 0, j, idx ! 1])"
      by (simp add: idx)
  qed
  then show ?thesis
    by (simp add: sum_axis1_def shape_tabulate)
qed

lemma mean_axis1_tabulate2:
  "mean_axis1 (nd_tabulate [a, b] f)
   = Inr (nd_tabulate [a] (\<lambda>idx. np_mean (map (\<lambda>j. f [idx ! 0, j]) [0..<b])))"
proof -
  have "nd_tabulate [a] (\<lambda>idx. np_mean (map (\<lambda>j. nd_get (nd_tabulate [a, b] f) (hd idx # j # tl idx)) [0..<b]))
        = nd_tabulate [a] (\<lambda>idx. np_mean (map (\<lambda>j. f [idx ! 0, j]) [0..<b]))"
  proof (rule nd_tabulate_cong)
    fix idx
    assume "valid_index [a] idx"
    then obtain i where idx: "idx = [i]" and b: "i < a"
      by (auto elim!: valid_index.elims)
    have "np_mean (map (\<lambda>j. nd_get (nd_tabulate [a, b] f) [i, j]) [0..<b])
          = np_mean (map (\<lambda>j. f [i, j]) [0..<b])"
      using b by (intro arg_cong[where f = np_mean] map_cong) (simp_all add: nd_get_tabulate)
    then show "np_mean (map (\<lambda>j. nd_get (nd_tabulate [a, b] f) (hd idx # j # tl idx)) [0..<b])
               = np_mean (map (\<lambda>j. f [idx ! 0, j]) [0..<b])"
      by (simp add: idx)
  qed
  then show ?thesis
    by (simp add: mean_axis1_def shape_tabulate)
qed

lemma rows_tabulate:
  "rows (nd_tabulate [M, 3] f) = map (\<lambda>i. [f [i, 0], f [i, 1], f [i, 2]]) [0..<M]"
  by (simp add: rows_def shape_tabulate upt3 nd_get_tabulate cong: map_cong)

lemma fold_min_le_init: "fold (\<lambda>r d. min d (g r)) ps (d0 :: real) \<le> d0"
proof (induction ps arbitrary: d0)
  case Nil
  then show ?case by simp
next
  case (Cons p ps)
  have "fold (\<lambda>r d. min d (g r)) ps (min d0 (g p)) \<le> min d0 (g p)"
    by (rule Cons.IH)
  then show ?case by simp
qed

lemma fold_min_le_elem: "r \<in> set ps \<Longrightarrow> fold (\<lambda>r d. min d (g r)) ps (d0 :: real) \<le> g r"
proof (induction ps arbitrary: d0)
  case Nil
  then show ?case by simp
next
  case (Cons p ps)
  show ?case
  proof (cases "r = p")
    case True
    have "fold (\<lambda>r d. min d (g r)) ps (min d0 (g p)) \<le> min d0 (g p)"
      by (rule fold_min_le_init)
    with True show ?thesis by simp
  next
    case False
    with Cons.prems have "r \<in> set ps" by simp
    then show ?thesis using Cons.IH by simp
  qed
qed

lemma nn_query_le: "r \<in> set ps \<Longrightarrow> nn_query ps q \<le> euclid q r"
proof (cases ps)
  case Nil
  assume "r \<in> set ps"
  with Nil show ?thesis by simp
next
  case (Cons p ps')
  assume "r \<in> set ps"
  with Cons have "r = p \<or> r \<in> set ps'" by auto
  then show ?thesis
    using fold_min_le_init [of "euclid q" ps' "euclid q p"] fold_min_le_elem [of r ps' "euclid q" "euclid q p"]
    by (auto simp: Cons)
qed


text \<open>
  C3.  For single poses (R_est, t_est) and (R_gt, t_gt) and a point set with at least one
  point, adi returns a number that is at most the ADD value of the same pose pair, add
  being applied with the estimated pose as a batch of one.
\<close>

theorem adi_le_add:
  assumes wf: "wf_array R_est" "wf_array t_est" "wf_array R_gt" "wf_array t_gt" "wf_array pts"
    and sh: "shape R_est = [3, 3]" "shape t_est = [3]" "shape R_gt = [3, 3]" "shape t_gt = [3]"
      "shape pts = [M, 3]"
    and M: "1 \<le> M"
  shows "\<exists>a b. adi R_est t_est R_gt t_gt pts = Inr (Fin a)
           \<and> add \<lparr>shape = [1, 3, 3], data = data R_est\<rparr> \<lparr>shape = [1, 3], data = data t_est\<rparr>
                  R_gt t_gt pts = Inr \<lparr>shape = [1], data = [Fin b]\<rparr>
           \<and> a \<le> b"
proof -
  define E where "E = pose_coord pts (data R_est) 0 (data t_est) 0"
  define G where "G = pose_coord pts (data R_gt) 0 (data t_gt) 0"
  define est_row where "est_row m = [E 0 m, E 1 m, E 2 m]" for m
  define gt_row where "gt_row m = [G 0 m, G 1 m, G 2 m]" for m
  define pd where "pd m = sqrt (\<Sum>c\<leftarrow>[0..<3]. (E c m - G c m) ^ 2)" for m
  let ?Rb = "\<lparr>shape = [1, 3, 3], data = data R_est\<rparr>"
  let ?tb = "\<lparr>shape = [1, 3], data = data t_est\<rparr>"
  text \<open>The single-pose transforms used by adi.\<close>
  have se: "transform_pts_Rt pts R_est t_est = Inr (nd_tabulate [M, 3] (\<lambda>idx. E (idx ! 1) (idx ! 0)))"
    unfolding E_def using sh by (intro transform_single) (simp_all add: nd_size_def)
  have sg: "transform_pts_Rt pts R_gt t_gt = Inr (nd_tabulate [M, 3] (\<lambda>idx. G (idx ! 1) (idx ! 0)))"
    unfolding G_def using sh by (intro transform_single) (simp_all add: nd_size_def)
  have re: "rows (nd_tabulate [M, 3] (\<lambda>idx. E (idx ! 1) (idx ! 0))) = map est_row [0..<M]"
    by (simp add: rows_tabulate est_row_def)
  have rg: "rows (nd_tabulate [M, 3] (\<lambda>idx. G (idx ! 1) (idx ! 0))) = map gt_row [0..<M]"
    by (simp add: rows_tabulate gt_row_def)
  define nn where "nn m = nn_query (map est_row [0..<M]) (gt_row m)" for m
  have adi: "adi R_est t_est R_gt t_gt pts = Inr (np_mean (map nn [0..<M]))"
    unfolding adi_def se sg using re rg by (simp add: nn_def[abs_def] comp_def)
  text \<open>The batched transforms used by add.\<close>
  have be: "transform_pts_Rt_batch pts ?Rb ?tb
            = Inr (nd_tabulate [1, 3, M] (\<lambda>idx. E (idx ! 1) (idx ! 2)))"
  proof -
    have "transform_pts_Rt_batch pts ?Rb ?tb
          = Inr (nd_tabulate [1, 3, M]
               (\<lambda>idx. pose_coord pts (data ?Rb) (9 * (idx ! 0)) (data ?tb) (3 * (idx ! 0))
                         (idx ! 1) (idx ! 2)))"
      using sh by (intro transform_batch_3d) (simp_all add: nd_size_def)
    also have "nd_tabulate [1, 3, M]
               (\<lambda>idx. pose_coord pts (data ?Rb) (9 * (idx ! 0)) (data ?tb) (3 * (idx ! 0))
                         (idx ! 1) (idx ! 2))
          = nd_tabulate [1, 3, M] (\<lambda>idx. E (idx ! 1) (idx ! 2))"
      by (rule nd_tabulate_cong) (auto simp: valid_index3 E_def)
    finally show ?thesis .
  qed
  have bg: "transform_pts_Rt_batch pts R_gt t_gt
            = Inr (nd_tabulate [1, 3, M] (\<lambda>idx. G (idx ! 1) (idx ! 2)))"
    unfolding G_def using sh by (intro transform_batch_2d) (simp_all add: nd_size_def)
  have df: "nd_binop (\<lambda>x y. x - y) (nd_tabulate [1, 3, M] (\<lambda>idx. E (idx ! 1) (idx ! 2)))
              (nd_tabulate [1, 3, M] (\<lambda>idx. G (idx ! 1) (idx ! 2)))
            = Inr (nd_tabulate [1, 3, M] (\<lambda>idx. E (idx ! 1) (idx ! 2) - G (idx ! 1) (idx ! 2)))"
    by (rule nd_binop_tabulate)
  have sq: "sum_axis1 (nd_map (\<lambda>x. x ^ 2)
              (nd_tabulate [1, 3, M] (\<lambda>idx. E (idx ! 1) (idx ! 2) - G (idx ! 1) (idx ! 2))))
            = Inr (nd_tabulate [1, M] (\<lambda>idx. \<Sum>c\<leftarrow>[0..<3]. (E c (idx ! 1) - G c (idx ! 1)) ^ 2))"
    by (simp add: nd_map_tabulate sum_axis1_tabulate3)
  have mn: "mean_axis1 (nd_map sqrt
              (nd_tabulate [1, M] (\<lambda>idx. \<Sum>c\<leftarrow>[0..<3]. (E c (idx ! 1) - G c (idx ! 1)) ^ 2)))
            = Inr (nd_tabulate [1] (\<lambda>idx. np_mean (map pd [0..<M])))"
    by (simp add: nd_map_tabulate mean_axis1_tabulate2 pd_def[abs_def])
  have one: "nd_tabulate [1] (\<lambda>idx. np_mean (map pd [0..<M]))
             = \<lparr>shape = [1], data = [np_mean (map pd [0..<M])]\<rparr>"
    by (simp add: nd_tabulate_def)
  have add: "add ?Rb ?tb R_gt t_gt pts = Inr \<lparr>shape = [1], data = [np_mean (map pd [0..<M])]\<rparr>"
    unfolding add_def be bg using df sq mn one by (simp add: Let_def)
  text \<open>The nearest neighbour is at most as far as the point of the same index.\<close>
  have le: "nn m \<le> pd m" if "m < M" for m
  proof -
    have "est_row m \<in> set (map est_row [0..<M])"
      using that by simp
    then have "nn m \<le> euclid (gt_row m) (est_row m)"
      unfolding nn_def by (rule nn_query_le)
    also have "euclid (gt_row m) (est_row m) = pd m"
      by (simp add: euclid_def gt_row_def est_row_def pd_def upt3 power2_commute)
    finally show ?thesis .
  qed
  have "sum_list (map nn [0..<M]) \<le> sum_list (map pd [0..<M])"
    by (rule sum_list_mono) (simp add: le)
  then have "sum_list (map nn [0..<M]) / real M \<le> sum_list (map pd [0..<M]) / real M"
    using M by (simp add: divide_right_mono)
  moreover have "np_mean (map nn [0..<M]) = Fin (sum_list (map nn [0..<M]) / real M)"
    "np_mean (map pd [0..<M]) = Fin (sum_list (map pd [0..<M]) / real M)"
    using M by (simp_all add: np_mean_def)
  ultimately show ?thesis
    using adi add by auto
qed


theorem adi_le_add_witness:
  "\<exists>a b. adi \<lparr>shape = [3, 3], data = [0, - 1, 0, 1, 0, 0, 0, 0, 1]\<rparr>
             \<lparr>shape = [3], data = [0, 0, 0]\<rparr>
             \<lparr>shape = [3, 3], data = [1, 0, 0, 0, 1, 0, 0, 0, 1]\<rparr>
             \<lparr>shape = [3], data = [0, 0, 0]\<rparr>
             \<lparr>shape = [2, 3], data = [1, 0, 0, 0, 1, 0]\<rparr> = Inr (Fin a)
       \<and> add \<lparr>shape = [1, 3, 3], data = [0, - 1, 0, 1, 0, 0, 0, 0, 1]\<rparr>
              \<lparr>shape = [1, 3], data = [0, 0, 0]\<rparr>
              \<lparr>shape = [3, 3], data = [1, 0, 0, 0, 1, 0, 0, 0, 1]\<rparr>
              \<lparr>shape = [3], data = [0, 0, 0]\<rparr>
              \<lparr>shape = [2, 3], data = [1, 0, 0, 0, 1, 0]\<rparr> = Inr \<lparr>shape = [1], data = [Fin b]\<rparr>
       \<and> a \<le> b"
  using adi_le_add [of "\<lparr>shape = [3, 3], data = [0, - 1, 0, 1, 0, 0, 0, 0, 1]\<rparr>"
                      "\<lparr>shape = [3], data = [0, 0, 0]\<rparr>"
                      "\<lparr>shape = [3, 3], data = [1, 0, 0, 0, 1, 0, 0, 0, 1]\<rparr>"
                      "\<lparr>shape = [3], data = [0, 0, 0]\<rparr>"
                      "\<lparr>shape = [2, 3], data = [1, 0, 0, 0, 1, 0]\<rparr>" 2]
  by (simp add: wf_array_def)

subsection \<open>re: the clip before arccos\<close>

lemma rotation_cofactors:
  fixes x0 x1 x2 x3 x4 x5 x6 x7 x8 :: real
  assumes o: "x0 * x0 + x1 * x1 + x2 * x2 = 1"
    "x0 * x3 + x1 * x4 + x2 * x5 = 0"
    "x0 * x6 + x1 * x7 + x2 * x8 = 0"
    "x3 * x3 + x4 * x4 + x5 * x5 = 1"
    "x3 * x6 + x4 * x7 + x5 * x8 = 0"
    "x6 * x6 + x7 * x7 + x8 * x8 = 1"
    and d: "x0 * (x4 * x8 - x5 * x7) - x1 * (x3 * x8 - x5 * x6) + x2 * (x3 * x7 - x4 * x6) = 1"
  shows "x4 * x8 - x5 * x7 = x0"
    "x5 * x6 - x3 * x8 = x1"
    "x3 * x7 - x4 * x6 = x2"
    "x2 * x7 - x1 * x8 = x3"
    "x0 * x8 - x2 * x6 = x4"
    "x1 * x6 - x0 * x7 = x5"
    "x1 * x5 - x2 * x4 = x6"
    "x2 * x3 - x0 * x5 = x7"
    "x0 * x4 - x1 * x3 = x8"
proof -
  have "(x0 * x0 + x1 * x1 + x2 * x2) * (x4 * x8 - x5 * x7) + (x0 * x3 + x1 * x4 + x2 * x5) * (x2 * x7 - x1 * x8) + (x0 * x6 + x1 * x7 + x2 * x8) * (x1 * x5 - x2 * x4)
        = x0 * (x0 * (x4 * x8 - x5 * x7) - x1 * (x3 * x8 - x5 * x6) + x2 * (x3 * x7 - x4 * x6))"
    by (simp add: algebra_simps)
  then show "x4 * x8 - x5 * x7 = x0"
    using o d by (simp add: mult.commute add.commute)
  have "(x0 * x0 + x1 * x1 + x2 * x2) * (x5 * x6 - x3 * x8) + (x0 * x3 + x1 * x4 + x2 * x5) * (x0 * x8 - x2 * x6) + (x0 * x6 + x1 * x7 + x2 * x8) * (x2 * x3 - x0 * x5)
        = x1 * (x0 * (x4 * x8 - x5 * x7) - x1 * (x3 * x8 - x5 * x6) + x2 * (x3 * x7 - x4 * x6))"
    by (simp add: algebra_simps)
  then show "x5 * x6 - x3 * x8 = x1"
    using o d by (simp add: mult.commute add.commute)
  have "(x0 * x0 + x1 * x1 + x2 * x2) * (x3 * x7 - x4 * x6) + (x0 * x3 + x1 * x4 + x2 * x5) * (x1 * x6 - x0 * x7) + (x0 * x6 + x1 * x7 + x2 * x8) * (x0 * x4 - x1 * x3)
        = x2 * (x0 * (x4 * x8 - x5 * x7) - x1 * (x3 * x8 - x5 * x6) + x2 * (x3 * x7 - x4 * x6))"
    by (simp add: algebra_simps)
  then show "x3 * x7 - x4 * x6 = x2"
    using o d by (simp add: mult.commute add.commute)
  have "(x3 * x0 + x4 * x1 + x5 * x2) * (x4 * x8 - x5 * x7) + (x3 * x3 + x4 * x4 + x5 * x5) * (x2 * x7 - x1 * x8) + (x3 * x6 + x4 * x7 + x5 * x8) * (x1 * x5 - x2 * x4)
        = x3 * (x0 * (x4 * x8 - x5 * x7) - x1 * (x3 * x8 - x5 * x6) + x2 * (x3 * x7 - x4 * x6))"
    by (simp add: algebra_simps)
  then show "x2 * x7 - x1 * x8 = x3"
    using o d by (simp add: mult.commute add.commute)
  have "(x3 * x0 + x4 * x1 + x5 * x2) * (x5 * x6 - x3 * x8) + (x3 * x3 + x4 * x4 + x5 * x5) * (x0 * x8 - x2 * x6) + (x3 * x6 + x4 * x7 + x5 * x8) * (x2 * x3 - x0 * x5)
        = x4 * (x0 * (x4 * x8 - x5 * x7) - x1 * (x3 * x8 - x5 * x6) + x2 * (x3 * x7 - x4 * x6))"
    by (simp add: algebra_simps)
  then show "x0 * x8 - x2 * x6 = x4"
    using o d by (simp add: mult.commute add.commute)
  have "(x3 * x0 + x4 * x1 + x5 * x2) * (x3 * x7 - x4 * x6) + (x3 * x3 + x4 * x4 + x5 * x5) * (x1 * x6 - x0 * x7) + (x3 * x6 + x4 * x7 + x5 * x8) * (x0 * x4 - x1 * x3)
        = x5 * (x0 * (x4 * x8 - x5 * x7) - x1 * (x3 * x8 - x5 * x6) + x2 * (x3 * x7 - x4 * x6))"
    by (simp add: algebra_simps)
  then show "x1 * x6 - x0 * x7 = x5"
    using o d by (simp add: mult.commute add.commute)
  have "(x6 * x0 + x7 * x1 + x8 * x2) * (x4 * x8 - x5 * x7) + (x6 * x3 + x7 * x4 + x8 * x5) * (x2 * x7 - x1 * x8) + (x6 * x6 + x7 * x7 + x8 * x8) * (x1 * x5 - x2 * x4)
        = x6 * (x0 * (x4 * x8 - x5 * x7) - x1 * (x3 * x8 - x5 * x6) + x2 * (x3 * x7 - x4 * x6))"
    by (simp add: algebra_simps)
  then show "x1 * x5 - x2 * x4 = x6"
    using o d by (simp add: mult.commute add.commute)
  have "(x6 * x0 + x7 * x1 + x8 * x2) * (x5 * x6 - x3 * x8) + (x6 * x3 + x7 * x4 + x8 * x5) * (x0 * x8 - x2 * x6) + (x6 * x6 + x7 * x7 + x8 * x8) * (x2 * x3 - x0 * x5)
        = x7 * (x0 * (x4 * x8 - x5 * x7) - x1 * (x3 * x8 - x5 * x6) + x2 * (x3 * x7 - x4 * x6))"
    by (simp add: algebra_simps)
  then show "x2 * x3 - x0 * x5 = x7"
    using o d by (simp add: mult.commute add.commute)
  have "(x6 * x0 + x7 * x1 + x8 * x2) * (x3 * x7 - x4 * x6) + (x6 * x3 + x7 * x4 + x8 * x5) * (x1 * x6 - x0 * x7) + (x6 * x6 + x7 * x7 + x8 * x8) * (x0 * x4 - x1 * x3)
        = x8 * (x0 * (x4 * x8 - x5 * x7) - x1 * (x3 * x8 - x5 * x6) + x2 * (x3 * x7 - x4 * x6))"
    by (simp add: algebra_simps)
  then show "x0 * x4 - x1 * x3 = x8"
    using o d by (simp add: mult.commute add.commute)
qed

lemma upt9: "[0..<9] = [0, 1, 2, 3, 4, 5, 6, 7, 8]"
  by (simp add: upt_rec)

lemma inv3_rotation:
  assumes "is_rotation R"
  shows "inv3 (data R) = [data R ! 0, data R ! 3, data R ! 6, data R ! 1, data R ! 4, data R ! 7,
                          data R ! 2, data R ! 5, data R ! 8]"
    and "det3 (data R) = 1"
proof -
  let ?x = "\<lambda>k. data R ! k"
  from assms have d: "det3 (data R) = 1" and sh: "shape R = [3, 3]"
    by (simp_all add: is_rotation_def)
  from assms sh have o:
    "?x 0 * ?x 0 + ?x 1 * ?x 1 + ?x 2 * ?x 2 = 1"
    "?x 0 * ?x 3 + ?x 1 * ?x 4 + ?x 2 * ?x 5 = 0"
    "?x 0 * ?x 6 + ?x 1 * ?x 7 + ?x 2 * ?x 8 = 0"
    "?x 3 * ?x 3 + ?x 4 * ?x 4 + ?x 5 * ?x 5 = 1"
    "?x 3 * ?x 6 + ?x 4 * ?x 7 + ?x 5 * ?x 8 = 0"
    "?x 6 * ?x 6 + ?x 7 * ?x 7 + ?x 8 * ?x 8 = 1"
    by (simp_all add: is_rotation_def upt3 nd_get_def eval_nat_numeral)
  have d': "?x 0 * (?x 4 * ?x 8 - ?x 5 * ?x 7) - ?x 1 * (?x 3 * ?x 8 - ?x 5 * ?x 6)
            + ?x 2 * (?x 3 * ?x 7 - ?x 4 * ?x 6) = 1"
    using d by (simp add: det3_def)
  note c = rotation_cofactors [OF o d']
  show "det3 (data R) = 1" by (rule d)
  show "inv3 (data R) = [?x 0, ?x 3, ?x 6, ?x 1, ?x 4, ?x 7, ?x 2, ?x 5, ?x 8]"
    unfolding inv3_def d using c by simp
qed


lemma matmul_3d_3d:
  assumes "shape a = [N, r, k]" "shape b = [N, k, M]"
  shows "matmul a b = Inr (nd_tabulate [N, r, M]
           (\<lambda>idx. \<Sum>l\<leftarrow>[0..<k]. nd_get a [idx ! 0, idx ! 1, l] * nd_get b [idx ! 0, l, idx ! 2]))"
proof -
  have "matmul_core a b = Inr (nd_tabulate [N, r, M]
           (\<lambda>idx. \<Sum>l\<leftarrow>[0..<k]. nd_get a [idx ! 0, idx ! 1, l] * nd_get b [idx ! 0, l, idx ! 2]))"
    using assms
    by (auto simp: matmul_core_def broadcast_shapes_def bc_index_def valid_index3 Let_def
        intro!: nd_tabulate_cong)
  then show ?thesis
    using assms by (simp add: matmul_def shape_tabulate data_tabulate nd_tabulate_def)
qed

lemma trace_12_tabulate:
  "trace_12 (nd_tabulate [n, 3, 3] f)
   = Inr (nd_tabulate [n] (\<lambda>idx. f [idx ! 0, 0, 0] + f [idx ! 0, 1, 1] + f [idx ! 0, 2, 2]))"
proof -
  have "nd_tabulate [n] (\<lambda>idx. \<Sum>i\<leftarrow>[0..<3]. nd_get (nd_tabulate [n, 3, 3] f) [idx ! 0, i, i])
        = nd_tabulate [n] (\<lambda>idx. f [idx ! 0, 0, 0] + f [idx ! 0, 1, 1] + f [idx ! 0, 2, 2])"
    by (rule nd_tabulate_cong) (auto elim!: valid_index.elims simp: upt3 nd_get_tabulate)
  then show ?thesis
    by (simp add: trace_12_def shape_tabulate)
qed

lemma re_error_cos_rotation:
  assumes "shape R1 = [3, 3]" "is_rotation R2"
  shows "re_error_cos R1 R2
         = Inr \<lparr>shape = [1],
                data = [((\<Sum>k\<leftarrow>[0..<9]. data R1 ! k * data R2 ! k) - 1) * (1 / 2)]\<rparr>"
proof -
  let ?est = "\<lparr>shape = [1, 3, 3], data = data R1\<rparr>"
  let ?gt = "\<lparr>shape = [1, 3, 3], data = data R2\<rparr>"
  let ?T = "[data R2 ! 0, data R2 ! 3, data R2 ! 6, data R2 ! 1, data R2 ! 4, data R2 ! 7,
             data R2 ! 2, data R2 ! 5, data R2 ! 8]"
  let ?gi = "\<lparr>shape = [1, 3, 3], data = ?T\<rparr>"
  let ?f = "\<lambda>idx. \<Sum>l\<leftarrow>[0..<3]. nd_get ?est [idx ! 0, idx ! 1, l] * nd_get ?gi [idx ! 0, l, idx ! 2]"
  from assms(2) have sh2: "shape R2 = [3, 3]" and len2: "length (data R2) = 9"
    by (simp_all add: is_rotation_def)
  have a: "drop (length (shape R1) - 2) (shape R1) = [3, 3]"
    by (simp add: assms(1))
  have r1: "reshape_infer R1 [3, 3] = Inr ?est"
    by (simp add: reshape_infer_def nd_size_def assms(1))
  have r2: "reshape_infer R2 [3, 3] = Inr ?gt"
    by (simp add: reshape_infer_def nd_size_def sh2)
  have ms: "matrices ?gt = [data R2]"
    by (simp add: matrices_def len2)
  have iv: "linalg_inv ?gt = Inr ?gi"
    unfolding linalg_inv_def ms using inv3_rotation [OF assms(2)] by simp
  have mm: "matmul ?est ?gi = Inr (nd_tabulate [1, 3, 3] ?f)"
    by (rule matmul_3d_3d) simp_all
  have tr: "trace_12 (nd_tabulate [1, 3, 3] ?f)
            = Inr (nd_tabulate [1] (\<lambda>idx. ?f [idx ! 0, 0, 0] + ?f [idx ! 0, 1, 1] + ?f [idx ! 0, 2, 2]))"
    by (rule trace_12_tabulate)
  have val: "nd_map (\<lambda>x. (x - 1) * (1 / 2))
               (nd_tabulate [1] (\<lambda>idx. ?f [idx ! 0, 0, 0] + ?f [idx ! 0, 1, 1] + ?f [idx ! 0, 2, 2]))
             = \<lparr>shape = [1],
                data = [((\<Sum>k\<leftarrow>[0..<9]. data R1 ! k * data R2 ! k) - 1) * (1 / 2)]\<rparr>"
    by (simp add: nd_map_def nd_tabulate_def nd_get_def upt3 upt9 eval_nat_numeral)
  show ?thesis
    using a r1 r2 iv mm tr val by (simp add: re_error_cos_def)
qed


lemma np_clip_range: "- 1 \<le> np_clip c (- 1) 1" "np_clip c (- 1) 1 \<le> 1"
  by (simp_all add: np_clip_def)

lemma re_of_error_cos:
  assumes "re_error_cos A B = Inr ec"
  shows "re A B = Inr \<lparr>shape = shape ec,
                         data = map (\<lambda>c. Fin (arccos (np_clip c (- 1) 1) * 180 / pi)) (data ec)\<rparr>"
  using assms by (simp add: re_def nd_map_def np_arccos_def np_clip_range)

lemma clipped_angle_bounds:
  fixes c :: real
  defines "x \<equiv> arccos (np_clip c (- 1) 1) * 180 / pi"
  shows "0 \<le> x" "x \<le> 180" "1 \<le> c \<longrightarrow> x = 0"
    "\<forall>\<delta>. 0 \<le> \<delta> \<and> \<delta> \<le> pi \<and> cos \<delta> \<le> c \<longrightarrow> x \<le> \<delta> * 180 / pi"
proof -
  let ?k = "np_clip c (- 1) 1"
  have r: "- 1 \<le> ?k" "?k \<le> 1" by (rule np_clip_range)+
  have lb: "0 \<le> arccos ?k" and ub: "arccos ?k \<le> pi"
    using r by (simp_all add: arccos_lbound arccos_ubound)
  show "0 \<le> x" using lb by (simp add: x_def)
  have "arccos ?k * 180 \<le> pi * 180" using ub by simp
  then show "x \<le> 180" by (simp add: x_def field_simps)
  show "1 \<le> c \<longrightarrow> x = 0"
    by (simp add: x_def np_clip_def)
  show "\<forall>\<delta>. 0 \<le> \<delta> \<and> \<delta> \<le> pi \<and> cos \<delta> \<le> c \<longrightarrow> x \<le> \<delta> * 180 / pi"
  proof (intro allI impI)
    fix \<delta> :: real
    assume d: "0 \<le> \<delta> \<and> \<delta> \<le> pi \<and> cos \<delta> \<le> c"
    have "cos \<delta> \<le> ?k"
      using d cos_le_one [of \<delta>] by (auto simp: np_clip_def min_def max_def)
    then have "arccos ?k \<le> arccos (cos \<delta>)"
      using r cos_le_one [of \<delta>] cos_ge_minus_one [of \<delta>] by (intro arccos_le_arccos) simp_all
    also have "arccos (cos \<delta>) = \<delta>"
      using d by (simp add: arccos_cos)
    finally have "arccos ?k * 180 \<le> \<delta> * 180" by simp
    then show "x \<le> \<delta> * 180 / pi"
      by (simp add: x_def divide_right_mono)
  qed
qed

text \<open>
  C7.  Whenever re gets as far as the cosine argument (the array error_cos before the
  clip), whatever its entries are, inside or outside [-1, 1], re returns an array of finite
  angles in [0, 180]: the argument is clipped before arccos, so no entry is NaN.  An
  argument of 1 or more (nearly identical rotations, pushed above 1) gives exactly 0, and
  an argument of at least cos(delta) gives at most delta, in degrees.
\<close>

theorem re_clipped:
  assumes "re_error_cos R_est R_gt = Inr ec"
  shows "\<exists>out. re R_est R_gt = Inr out \<and> shape out = shape ec
           \<and> length (data out) = length (data ec)
           \<and> (\<forall>k<length (data ec). \<exists>x. data out ! k = Fin x \<and> 0 \<le> x \<and> x \<le> 180
                 \<and> x = arccos (np_clip (data ec ! k) (- 1) 1) * 180 / pi
                 \<and> (1 \<le> data ec ! k \<longrightarrow> x = 0)
                 \<and> (\<forall>\<delta>. 0 \<le> \<delta> \<and> \<delta> \<le> pi \<and> cos \<delta> \<le> data ec ! k
                        \<longrightarrow> x \<le> \<delta> * 180 / pi))"
proof -
  let ?out = "\<lparr>shape = shape ec,
               data = map (\<lambda>c. Fin (arccos (np_clip c (- 1) 1) * 180 / pi)) (data ec)\<rparr>"
  have "re R_est R_gt = Inr ?out"
    using assms by (rule re_of_error_cos)
  moreover have "\<exists>x. data ?out ! k = Fin x \<and> 0 \<le> x \<and> x \<le> 180
                 \<and> x = arccos (np_clip (data ec ! k) (- 1) 1) * 180 / pi
                 \<and> (1 \<le> data ec ! k \<longrightarrow> x = 0)
                 \<and> (\<forall>\<delta>. 0 \<le> \<delta> \<and> \<delta> \<le> pi \<and> cos \<delta> \<le> data ec ! k
                        \<longrightarrow> x \<le> \<delta> * 180 / pi)"
    if "k < length (data ec)" for k
    using that clipped_angle_bounds [of "data ec ! k"] by simp
  ultimately show ?thesis
    by (intro exI[of _ ?out]) simp
qed


theorem re_clipped_witness:
  "re_error_cos \<lparr>shape = [3, 3], data = [10000002 / 10000000, 0, 0, 0, 1, 0, 0, 0, 1]\<rparr>
                \<lparr>shape = [3, 3], data = [1, 0, 0, 0, 1, 0, 0, 0, 1]\<rparr>
   = Inr \<lparr>shape = [1], data = [10000001 / 10000000]\<rparr>
   \<and> re \<lparr>shape = [3, 3], data = [10000002 / 10000000, 0, 0, 0, 1, 0, 0, 0, 1]\<rparr>
         \<lparr>shape = [3, 3], data = [1, 0, 0, 0, 1, 0, 0, 0, 1]\<rparr>
     = Inr \<lparr>shape = [1], data = [Fin 0]\<rparr>"
proof -
  let ?A = "\<lparr>shape = [3, 3], data = [10000002 / 10000000, 0, 0, 0, 1, 0, 0, 0, 1 :: real]\<rparr>"
  let ?I = "\<lparr>shape = [3, 3], data = [1, 0, 0, 0, 1, 0, 0, 0, 1 :: real]\<rparr>"
  have rot: "is_rotation ?I"
    by (simp add: is_rotation_def upt3 nd_get_def det3_def)
  have ec: "re_error_cos ?A ?I = Inr \<lparr>shape = [1], data = [10000001 / 10000000]\<rparr>"
    using re_error_cos_rotation [of ?A ?I] rot by (simp add: upt9)
  from re_clipped [OF ec] obtain out where o: "re ?A ?I = Inr out" "shape out = [1]"
    "length (data out) = 1" "data out ! 0 = Fin 0"
    by auto
  from o(3,4) have "data out = [Fin 0]"
    by (cases "data out") auto
  with o(2) have "out = \<lparr>shape = [1], data = [Fin 0]\<rparr>"
    by (cases out) simp
  with o(1) ec show ?thesis by simp
qed

end
